theory Spec2Isabelle
  imports Complex_Main
begin

section \<open>The slot machine of game/models.py and game/views.py\<close>

text \<open>
  The development embeds the two Django models (\<^verbatim>\<open>GameSession\<close>, \<^verbatim>\<open>GameRoll\<close>), the
  helper functions of \<^verbatim>\<open>views.py\<close> and its four JSON views. The database is an explicit
  value that every view takes and returns; Python's \<^verbatim>\<open>random\<close> module is an explicit
  source of draws that is threaded through every function that draws from it; every
  exception the code can raise is a value.
\<close>

subsection \<open>Exceptions\<close>

datatype exn = Http404 | IndexError | KeyError | IntegrityError | OverflowError

subsection \<open>The random source\<close>

text \<open>
  \<^verbatim>\<open>random.choice\<close> and \<^verbatim>\<open>random.random\<close> are the only two functions of the module that
  the code calls (the tests patch them separately). The source holds the outcome of the
  n-th call of each of them and counts the calls made so far. A draw of \<^verbatim>\<open>random.choice\<close>
  is a natural number that is reduced modulo the length of the sequence, so that every
  element can be chosen and nothing else; a draw of \<^verbatim>\<open>random.random\<close> is the real number
  that the returned float denotes.
\<close>

record rng =
  choice_at :: "nat \<Rightarrow> nat"
  choice_used :: nat
  random_at :: "nat \<Rightarrow> real"
  random_used :: nat

definition random_random :: "rng \<Rightarrow> real \<times> rng" where
  "random_random g = (random_at g (random_used g), g\<lparr>random_used := random_used g + 1\<rparr>)"

text \<open>\<^verbatim>\<open>random.choice(seq)\<close> raises IndexError on an empty sequence, before it draws.\<close>

definition random_choice :: "'a list \<Rightarrow> rng \<Rightarrow> (exn + 'a) \<times> rng" where
  "random_choice xs g =
     (if xs = [] then (Inl IndexError, g)
      else (Inr (xs ! (choice_at g (choice_used g) mod length xs)),
            g\<lparr>choice_used := choice_used g + 1\<rparr>))"

text \<open>The comprehension \<^verbatim>\<open>[random.choice(seq) for _ in range(n)]\<close>.\<close>

fun random_choices :: "nat \<Rightarrow> 'a list \<Rightarrow> rng \<Rightarrow> (exn + 'a list) \<times> rng" where
  "random_choices 0 xs g = (Inr [], g)"
| "random_choices (Suc n) xs g =
     (case random_choice xs g of
        (Inl e, g1) \<Rightarrow> (Inl e, g1)
      | (Inr x, g1) \<Rightarrow>
          (case random_choices n xs g1 of
             (Inl e, g2) \<Rightarrow> (Inl e, g2)
           | (Inr ys, g2) \<Rightarrow> (Inr (x # ys), g2)))"

text \<open>
  The float literals \<^verbatim>\<open>0.3\<close> and \<^verbatim>\<open>0.6\<close> of \<^verbatim>\<open>should_server_cheat\<close> denote the doubles
  nearest to three and six tenths. Comparing two floats compares the reals they denote.
\<close>

definition float_0_3 :: real where
  "float_0_3 = 5404319552844595 / 2 ^ 54"

definition float_0_6 :: real where
  "float_0_6 = 5404319552844595 / 2 ^ 53"

subsection \<open>The symbol catalogue\<close>

record symbol_info =
  letter :: string
  reward :: int

definition SYMBOLS :: "(string \<times> symbol_info) list" where
  "SYMBOLS =
     [(''cherry'', \<lparr>letter = ''C'', reward = 10\<rparr>),
      (''lemon'', \<lparr>letter = ''L'', reward = 20\<rparr>),
      (''orange'', \<lparr>letter = ''O'', reward = 30\<rparr>),
      (''watermelon'', \<lparr>letter = ''W'', reward = 40\<rparr>)]"

definition SYMBOL_NAMES :: "string list" where
  "SYMBOL_NAMES = map fst SYMBOLS"

text \<open>\<^verbatim>\<open>SYMBOLS[name]\<close>: a missing key raises KeyError.\<close>

definition SYMBOLS_get :: "string \<Rightarrow> exn + symbol_info" where
  "SYMBOLS_get name = (case map_of SYMBOLS name of None \<Rightarrow> Inl KeyError | Some info \<Rightarrow> Inr info)"

subsection \<open>Helper functions of views.py\<close>

definition generate_roll :: "rng \<Rightarrow> (exn + string list) \<times> rng" where
  "generate_roll g = random_choices 3 SYMBOL_NAMES g"

definition check_winning_combination :: "string list \<Rightarrow> bool" where
  "check_winning_combination syms = (card (set syms) = 1)"

definition generate_losing_roll :: "rng \<Rightarrow> (exn + string list) \<times> rng" where
  "generate_losing_roll g =
     (case random_choices 3 SYMBOL_NAMES g of
        (Inl e, g1) \<Rightarrow> (Inl e, g1)
      | (Inr syms, g1) \<Rightarrow>
          if card (set syms) = 1 then
            (let available_symbols = filter (\<lambda>s. s \<noteq> syms ! 0) SYMBOL_NAMES
             in case random_choice available_symbols g1 of
                  (Inl e, g2) \<Rightarrow> (Inl e, g2)
                | (Inr s, g2) \<Rightarrow> (Inr (syms[2 := s]), g2))
          else (Inr syms, g1))"

definition should_server_cheat :: "int \<Rightarrow> int \<Rightarrow> rng \<Rightarrow> bool \<times> rng" where
  "should_server_cheat current_credits potential_win_credits g =
     (let future_credits = current_credits + potential_win_credits
      in if future_credits < 40 then (False, g)
         else if 40 \<le> future_credits \<and> future_credits \<le> 60 then
           (let (r, g1) = random_random g in (r < float_0_3, g1))
         else
           (let (r, g1) = random_random g in (r < float_0_6, g1)))"

subsection \<open>The models\<close>

text \<open>
  A row of \<^verbatim>\<open>GameSession\<close> and of \<^verbatim>\<open>GameRoll\<close>. A session identifier (a UUID) is a
  natural number. The \<^verbatim>\<open>created_at\<close> timestamps are written once and never read, and
  are left out. The integer fields of an object are Python integers; what a column of the
  database can hold is bounded (see \<^verbatim>\<open>in_column\<close> below).
\<close>

type_synonym uuid = nat

record game_session =
  session_id :: uuid
  credits :: int
  account_credits :: int
  is_active :: bool

record game_roll =
  session :: uuid
  symbols :: "string list"
  credits_before :: int
  credits_after :: int
  credits_won :: int
  was_winning_roll :: bool
  was_rerolled :: bool

text \<open>
  The database: the session table, keyed by the unique column \<^verbatim>\<open>session_id\<close>; the roll
  table, in insertion order; and the session rows written by \<^verbatim>\<open>Model.save()\<close>, one entry
  for each call that did not raise, in order.
\<close>

record database =
  sessions :: "uuid \<rightharpoonup> game_session"
  rolls :: "game_roll list"
  saves :: "game_session list"

definition empty_db :: database where
  "empty_db = \<lparr>sessions = Map.empty, rolls = [], saves = []\<rparr>"

text \<open>
  An \<^verbatim>\<open>IntegerField\<close> is an INTEGER column. With SQLite, the database of a Django
  project unless its settings choose another, such a column holds a signed integer of 64
  bits, and the driver raises OverflowError when a statement is given a Python integer
  outside that range: the statement is not executed and the table is as it was.
\<close>

definition in_column :: "int \<Rightarrow> bool" where
  "in_column n = (- (2 ^ 63) \<le> n \<and> n \<le> 2 ^ 63 - 1)"

definition storable :: "game_session \<Rightarrow> bool" where
  "storable s = (in_column (credits s) \<and> in_column (account_credits s))"

definition storable_roll :: "game_roll \<Rightarrow> bool" where
  "storable_roll r =
     (in_column (credits_before r) \<and> in_column (credits_after r) \<and> in_column (credits_won r))"

text \<open>The database after the INSERT or UPDATE of a session row has been executed.\<close>

definition store_row :: "game_session \<Rightarrow> database \<Rightarrow> database" where
  "store_row s db = db\<lparr>sessions := (sessions db)(session_id s \<mapsto> s), saves := saves db @ [s]\<rparr>"

text \<open>\<^verbatim>\<open>Model.save()\<close> on a session, and \<^verbatim>\<open>GameRoll.objects.create(...)\<close>.\<close>

definition save :: "game_session \<Rightarrow> database \<Rightarrow> exn + database" where
  "save s db = (if storable s then Inr (store_row s db) else Inl OverflowError)"

definition GameRoll_create :: "game_roll \<Rightarrow> database \<Rightarrow> exn + database" where
  "GameRoll_create r db =
     (if storable_roll r then Inr (db\<lparr>rolls := rolls db @ [r]\<rparr>) else Inl OverflowError)"

text \<open>
  The methods of \<^verbatim>\<open>GameSession\<close> mutate the object and save it: they take the object and
  the database and return both, with the value returned or the exception raised. An
  exception of \<^verbatim>\<open>save\<close> leaves the object mutated and the database as it was.
\<close>

definition can_play :: "game_session \<Rightarrow> bool" where
  "can_play s = (credits s \<ge> 1)"

definition deduct_credit ::
  "game_session \<Rightarrow> database \<Rightarrow> (exn + bool) \<times> game_session \<times> database" where
  "deduct_credit s db =
     (if can_play s then
        (let s1 = s\<lparr>credits := credits s - 1\<rparr>
         in case save s1 db of
              Inl e \<Rightarrow> (Inl e, s1, db)
            | Inr db1 \<Rightarrow> (Inr True, s1, db1))
      else (Inr False, s, db))"

definition add_credits ::
  "int \<Rightarrow> game_session \<Rightarrow> database \<Rightarrow> (exn + unit) \<times> game_session \<times> database" where
  "add_credits amount s db =
     (let s1 = s\<lparr>credits := credits s + amount\<rparr>
      in case save s1 db of
           Inl e \<Rightarrow> (Inl e, s1, db)
         | Inr db1 \<Rightarrow> (Inr (), s1, db1))"

definition cash_out ::
  "game_session \<Rightarrow> database \<Rightarrow> (exn + int) \<times> game_session \<times> database" where
  "cash_out s db =
     (let s1 = s\<lparr>account_credits := account_credits s + credits s\<rparr>;
          s2 = s1\<lparr>credits := 0\<rparr>;
          s3 = s2\<lparr>is_active := False\<rparr>
      in case save s3 db of
           Inl e \<Rightarrow> (Inl e, s3, db)
         | Inr db1 \<Rightarrow> (Inr (account_credits s3), s3, db1))"

subsection \<open>The views\<close>

text \<open>
  \<^verbatim>\<open>get_object_or_404(GameSession, session_id=sid, ...)\<close>: the row with that identifier
  that passes the other filters, or Http404.
\<close>

definition get_object_or_404 ::
  "(game_session \<Rightarrow> bool) \<Rightarrow> uuid \<Rightarrow> database \<Rightarrow> exn + game_session" where
  "get_object_or_404 flt sid db =
     (case sessions db sid of
        None \<Rightarrow> Inl Http404
      | Some s \<Rightarrow> if flt s then Inr s else Inl Http404)"

text \<open>
  The responses. \<^verbatim>\<open>JsonError status e\<close> is what the handlers
  \<^verbatim>\<open>except Exception as e: return JsonResponse({'error': str(e)}, status=500)\<close> build, and
  Http404 is an Exception as any other; \<^verbatim>\<open>NotEnoughCredits\<close> is the answer of status 400
  with the error text \<^verbatim>\<open>Not enough credits\<close>; \<^verbatim>\<open>Unhandled e\<close> is an exception that leaves a
  view without a handler. The text of the \<^verbatim>\<open>message\<close> of a cash-out is left out.
\<close>

datatype response =
    SessionCreated uuid int int
  | RollResult "string list" "string list" bool int int bool
  | CashedOut bool int
  | SessionStatus uuid int int bool bool
  | NotEnoughCredits
  | JsonError nat exn
  | Unhandled exn

fun status_code :: "response \<Rightarrow> nat" where
  "status_code NotEnoughCredits = 400"
| "status_code (JsonError st e) = st"
| "status_code (Unhandled e) = 500"
| "status_code r = 200"

text \<open>
  \<^verbatim>\<open>GameSession.objects.create()\<close> with the identifier that \<^verbatim>\<open>uuid.uuid4\<close> drew; the
  column is unique, so an identifier already in the table raises IntegrityError.
\<close>

definition create_session :: "uuid \<Rightarrow> database \<Rightarrow> response \<times> database" where
  "create_session u db =
     (if sessions db u \<noteq> None then (Unhandled IntegrityError, db)
      else
        (let s = \<lparr>session_id = u, credits = 10, account_credits = 0, is_active = True\<rparr>
         in case save s db of
              Inl e \<Rightarrow> (Unhandled e, db)
            | Inr db1 \<Rightarrow> (SessionCreated (session_id s) (credits s) (account_credits s), db1)))"

text \<open>
  Lines 61 to 72 of \<^verbatim>\<open>roll_slots\<close>: from the initial roll and the session after the
  deduction to \<^verbatim>\<open>(symbols, is_winning, credits_won, was_rerolled)\<close>.
\<close>

definition roll_outcome ::
  "game_session \<Rightarrow> string list \<Rightarrow> rng \<Rightarrow> (exn + string list \<times> bool \<times> int \<times> bool) \<times> rng" where
  "roll_outcome s syms g =
     (if check_winning_combination syms then
        (case SYMBOLS_get (syms ! 0) of
           Inl e \<Rightarrow> (Inl e, g)
         | Inr info \<Rightarrow>
             (let credits_won = reward info;
                  (should_reroll, g1) = should_server_cheat (credits s) credits_won g
              in if should_reroll then
                   (case generate_losing_roll g1 of
                      (Inl e, g2) \<Rightarrow> (Inl e, g2)
                    | (Inr syms', g2) \<Rightarrow> (Inr (syms', False, 0, True), g2))
                 else (Inr (syms, True, credits_won, False), g1)))
      else (Inr (syms, False, 0, False), g))"

text \<open>The comprehension \<^verbatim>\<open>[SYMBOLS[symbol]['letter'] for symbol in symbols]\<close>.\<close>

fun symbols_display :: "string list \<Rightarrow> exn + string list" where
  "symbols_display [] = Inr []"
| "symbols_display (x # xs) =
     (case SYMBOLS_get x of
        Inl e \<Rightarrow> Inl e
      | Inr info \<Rightarrow>
          (case symbols_display xs of
             Inl e \<Rightarrow> Inl e
           | Inr ls \<Rightarrow> Inr (letter info # ls)))"

definition roll_slots :: "uuid \<Rightarrow> database \<times> rng \<Rightarrow> response \<times> database \<times> rng" where
  "roll_slots sid w =
     (case w of (db, g) \<Rightarrow>
      (case get_object_or_404 is_active sid db of
        Inl e \<Rightarrow> (JsonError 500 e, db, g)
      | Inr s \<Rightarrow>
          if \<not> can_play s then (NotEnoughCredits, db, g)
          else
            (let cb = credits s
             in case deduct_credit s db of
                  (Inl e, s1, db1) \<Rightarrow> (JsonError 500 e, db1, g)
                | (Inr ok, s1, db1) \<Rightarrow>
                    (case generate_roll g of
                       (Inl e, g1) \<Rightarrow> (JsonError 500 e, db1, g1)
                     | (Inr syms0, g1) \<Rightarrow>
                         (case roll_outcome s1 syms0 g1 of
                            (Inl e, g2) \<Rightarrow> (JsonError 500 e, db1, g2)
                          | (Inr (syms, is_winning, won, rerolled), g2) \<Rightarrow>
                              (case (if is_winning then add_credits won s1 db1
                                     else (Inr (), s1, db1)) of
                                 (Inl e, s2, db2) \<Rightarrow> (JsonError 500 e, db2, g2)
                               | (Inr u, s2, db2) \<Rightarrow>
                                   (let roll = \<lparr>session = session_id s2, symbols = syms,
                                           credits_before = cb, credits_after = credits s2,
                                           credits_won = won, was_winning_roll = is_winning,
                                           was_rerolled = rerolled\<rparr>
                                    in case GameRoll_create roll db2 of
                                         Inl e \<Rightarrow> (JsonError 500 e, db2, g2)
                                       | Inr db3 \<Rightarrow>
                                           (case symbols_display syms of
                                              Inl e \<Rightarrow> (JsonError 500 e, db3, g2)
                                            | Inr display \<Rightarrow>
                                                (RollResult syms display is_winning won
                                                   (credits s2) rerolled,
                                                 db3, g2)))))))))"

text \<open>The view \<^verbatim>\<open>cash_out\<close> (the method of the model has the name).\<close>

definition cash_out_view :: "uuid \<Rightarrow> database \<Rightarrow> response \<times> database" where
  "cash_out_view sid db =
     (case get_object_or_404 is_active sid db of
        Inl e \<Rightarrow> (JsonError 500 e, db)
      | Inr s \<Rightarrow>
          (case cash_out s db of
             (Inl e, s1, db1) \<Rightarrow> (JsonError 500 e, db1)
           | (Inr total_account_credits, s1, db1) \<Rightarrow>
               (CashedOut True total_account_credits, db1)))"

definition get_session_status :: "uuid \<Rightarrow> database \<Rightarrow> response \<times> database" where
  "get_session_status sid db =
     (case get_object_or_404 (\<lambda>s. True) sid db of
        Inl e \<Rightarrow> (JsonError 500 e, db)
      | Inr s \<Rightarrow>
          (SessionStatus (session_id s) (credits s) (account_credits s) (is_active s)
             (can_play s), db))"

subsection \<open>Sequences of requests\<close>

datatype operation = CreateSession uuid | PlayRoll uuid | CashOut uuid | GetStatus uuid

fun step :: "operation \<Rightarrow> database \<times> rng \<Rightarrow> response \<times> database \<times> rng" where
  "step (CreateSession u) (db, g) = (case create_session u db of (r, db1) \<Rightarrow> (r, db1, g))"
| "step (PlayRoll sid) (db, g) = roll_slots sid (db, g)"
| "step (CashOut sid) (db, g) = (case cash_out_view sid db of (r, db1) \<Rightarrow> (r, db1, g))"
| "step (GetStatus sid) (db, g) = (case get_session_status sid db of (r, db1) \<Rightarrow> (r, db1, g))"

fun run :: "operation list \<Rightarrow> database \<times> rng \<Rightarrow> database \<times> rng" where
  "run [] w = w"
| "run (op # ops) w = run ops (snd (step op w))"

subsection \<open>Invariants of the session table\<close>

text \<open>
  Every row is stored under its own identifier; no balance is negative; a closed session
  holds no credits.
\<close>

definition keyed :: "database \<Rightarrow> bool" where
  "keyed db = (\<forall>k s. sessions db k = Some s \<longrightarrow> session_id s = k)"

definition credits_nonneg :: "database \<Rightarrow> bool" where
  "credits_nonneg db =
     (\<forall>k s. sessions db k = Some s \<longrightarrow> 0 \<le> credits s \<and> 0 \<le> account_credits s)"

definition closed_empty :: "database \<Rightarrow> bool" where
  "closed_empty db = (\<forall>k s. sessions db k = Some s \<longrightarrow> \<not> is_active s \<longrightarrow> credits s = 0)"

subsection \<open>Fixtures\<close>

text \<open>
  The fixtures of \<^verbatim>\<open>tests.py\<close>: \<^verbatim>\<open>random.random\<close> patched with a return value (and
  \<^verbatim>\<open>random.choice\<close> with the index it picks at each call), and a database that holds one
  session created with a given number of credits.
\<close>

definition mock_rng :: "(nat \<Rightarrow> nat) \<Rightarrow> real \<Rightarrow> rng" where
  "mock_rng pick r = \<lparr>choice_at = pick, choice_used = 0, random_at = (\<lambda>n. r), random_used = 0\<rparr>"

definition new_session :: "uuid \<Rightarrow> int \<Rightarrow> game_session" where
  "new_session u c = \<lparr>session_id = u, credits = c, account_credits = 0, is_active = True\<rparr>"

definition db_with :: "uuid \<Rightarrow> int \<Rightarrow> database" where
  "db_with u c = store_row (new_session u c) empty_db"

section \<open>The random helpers and the catalogue\<close>

lemma random_choice_mem:
  "xs \<noteq> [] \<Longrightarrow> \<exists>x. x \<in> set xs \<and> random_choice xs g = (Inr x, g\<lparr>choice_used := choice_used g + 1\<rparr>)"
  by (simp add: random_choice_def)

lemma random_choices_total:
  "xs \<noteq> [] \<Longrightarrow>
   \<exists>ys. random_choices n xs g = (Inr ys, g\<lparr>choice_used := choice_used g + n\<rparr>) \<and>
        length ys = n \<and> set ys \<subseteq> set xs"
proof (induction n arbitrary: g)
  case 0
  then show ?case by simp
next
  case (Suc n)
  from random_choice_mem [OF Suc.prems, of g] obtain x where
    x: "x \<in> set xs" "random_choice xs g = (Inr x, g\<lparr>choice_used := choice_used g + 1\<rparr>)"
    by blast
  from Suc.IH [OF Suc.prems, of "g\<lparr>choice_used := choice_used g + 1\<rparr>"] obtain ys where
    ys: "random_choices n xs (g\<lparr>choice_used := choice_used g + 1\<rparr>)
           = (Inr ys, g\<lparr>choice_used := choice_used g + 1 + n\<rparr>)"
        "length ys = n" "set ys \<subseteq> set xs"
    by auto
  show ?case using x ys by (simp add: add.commute add.left_commute)
qed

lemma SYMBOL_NAMES_eq: "SYMBOL_NAMES = [''cherry'', ''lemon'', ''orange'', ''watermelon'']"
  by (simp add: SYMBOL_NAMES_def SYMBOLS_def)

lemma generate_roll_total:
  "\<exists>syms. generate_roll g = (Inr syms, g\<lparr>choice_used := choice_used g + 3\<rparr>) \<and>
          length syms = 3 \<and> set syms \<subseteq> set SYMBOL_NAMES"
  unfolding generate_roll_def
  by (rule random_choices_total) (simp add: SYMBOL_NAMES_eq)

lemma SYMBOLS_get_name:
  "name \<in> set SYMBOL_NAMES \<Longrightarrow>
   \<exists>info. SYMBOLS_get name = Inr info \<and> reward info \<in> {10, 20, 30, 40}"
  by (auto simp: SYMBOLS_get_def SYMBOL_NAMES_def SYMBOLS_def)

lemma symbols_display_total:
  "set syms \<subseteq> set SYMBOL_NAMES \<Longrightarrow> \<exists>ls. symbols_display syms = Inr ls \<and> length ls = length syms"
proof (induction syms)
  case Nil
  then show ?case by simp
next
  case (Cons x xs)
  then obtain info where "SYMBOLS_get x = Inr info" using SYMBOLS_get_name [of x] by auto
  moreover from Cons obtain ls where "symbols_display xs = Inr ls" "length ls = length xs" by auto
  ultimately show ?case by simp
qed

lemma available_symbols:
  "filter (\<lambda>s. s \<noteq> a) SYMBOL_NAMES \<noteq> []"
  by (auto simp: SYMBOL_NAMES_eq)

lemma length3: "length xs = 3 \<Longrightarrow> \<exists>a b c. xs = [a, b, c]"
  by (cases xs; simp; (cases "tl xs"; simp; (cases "tl (tl xs)"; simp)))

lemma check_winning_combination3:
  "check_winning_combination [a, b, c] = (a = b \<and> b = c)"
  unfolding check_winning_combination_def
  by (auto simp: card_insert_if card_Suc_eq doubleton_eq_iff)

lemma generate_losing_roll_total:
  "\<exists>syms g1. generate_losing_roll g = (Inr syms, g1) \<and> length syms = 3 \<and>
     set syms \<subseteq> set SYMBOL_NAMES \<and> \<not> check_winning_combination syms \<and>
     choice_at g1 = choice_at g \<and> random_at g1 = random_at g \<and> random_used g1 = random_used g"
proof -
  have ne: "SYMBOL_NAMES \<noteq> []" by (simp add: SYMBOL_NAMES_eq)
  from random_choices_total [OF ne, of 3 g] obtain syms where
    r: "random_choices 3 SYMBOL_NAMES g = (Inr syms, g\<lparr>choice_used := choice_used g + 3\<rparr>)"
    and l: "length syms = 3" and sub: "set syms \<subseteq> set SYMBOL_NAMES"
    by blast
  from length3 [OF l] obtain a b c where abc: "syms = [a, b, c]" by blast
  let ?g1 = "g\<lparr>choice_used := choice_used g + 3\<rparr>"
  show ?thesis
  proof (cases "card (set syms) = 1")
    case False
    then show ?thesis using r l sub
      by (simp add: generate_losing_roll_def check_winning_combination_def)
  next
    case True
    then have eq: "a = b" "b = c"
      using check_winning_combination3 [of a b c] abc
      by (simp_all add: check_winning_combination_def)
    let ?av = "filter (\<lambda>s. s \<noteq> a) SYMBOL_NAMES"
    from random_choice_mem [OF available_symbols, of a ?g1] obtain s where
      s: "s \<in> set ?av" "random_choice ?av ?g1 = (Inr s, ?g1\<lparr>choice_used := choice_used ?g1 + 1\<rparr>)"
      by blast
    then have sa: "s \<noteq> a" "s \<in> set SYMBOL_NAMES" by auto
    have "generate_losing_roll g = (Inr [a, b, s], ?g1\<lparr>choice_used := choice_used ?g1 + 1\<rparr>)"
      using r True s(2) abc by (simp add: generate_losing_roll_def)
    moreover have "\<not> check_winning_combination [a, b, s]"
      using sa eq by (simp add: check_winning_combination3)
    moreover have "set [a, b, s] \<subseteq> set SYMBOL_NAMES" using sub abc sa by simp
    ultimately show ?thesis by simp
  qed
qed

section \<open>One roll\<close>

lemma roll_outcome_losing:
  "\<not> check_winning_combination syms0 \<Longrightarrow>
   roll_outcome s syms0 g = (Inr (syms0, False, 0, False), g)"
  by (simp add: roll_outcome_def)

lemma roll_outcome_winning:
  assumes "check_winning_combination syms0" and "SYMBOLS_get (syms0 ! 0) = Inr info"
  shows "roll_outcome s syms0 g =
     (case should_server_cheat (credits s) (reward info) g of
        (should_reroll, g1) \<Rightarrow>
          if should_reroll then
            (case generate_losing_roll g1 of
               (Inl e, g2) \<Rightarrow> (Inl e, g2)
             | (Inr syms', g2) \<Rightarrow> (Inr (syms', False, 0, True), g2))
          else (Inr (syms0, True, reward info, False), g1))"
  using assms by (simp add: roll_outcome_def Let_def)

lemma hd_in_names:
  "length syms0 = 3 \<Longrightarrow> set syms0 \<subseteq> set SYMBOL_NAMES \<Longrightarrow> syms0 ! 0 \<in> set SYMBOL_NAMES"
  by (cases syms0) auto

lemma roll_outcome_total:
  assumes l: "length syms0 = 3" and sub: "set syms0 \<subseteq> set SYMBOL_NAMES"
  shows "\<exists>syms w won rr g2.
           roll_outcome s syms0 g = (Inr (syms, w, won, rr), g2) \<and>
           length syms = 3 \<and> set syms \<subseteq> set SYMBOL_NAMES \<and>
           w = check_winning_combination syms \<and>
           (if w then won \<in> {10, 20, 30, 40} \<and> \<not> rr else won = 0)"
proof (cases "check_winning_combination syms0")
  case False
  then show ?thesis using l sub by (auto simp: roll_outcome_losing)
next
  case True
  from SYMBOLS_get_name [OF hd_in_names [OF l sub]] obtain info where
    info: "SYMBOLS_get (syms0 ! 0) = Inr info" "reward info \<in> {10, 20, 30, 40}"
    by blast
  obtain cheat g1 where c: "should_server_cheat (credits s) (reward info) g = (cheat, g1)"
    by (cases "should_server_cheat (credits s) (reward info) g")
  show ?thesis
  proof (cases cheat)
    case False
    then show ?thesis
      using True info c l sub by (auto simp: roll_outcome_winning [OF True info(1)])
  next
    case True
    from generate_losing_roll_total [of g1] obtain syms g2 where
      "generate_losing_roll g1 = (Inr syms, g2)" "length syms = 3"
      "set syms \<subseteq> set SYMBOL_NAMES" "\<not> check_winning_combination syms"
      by blast
    then show ?thesis
      using True \<open>check_winning_combination syms0\<close> info c
      by (auto simp: roll_outcome_winning [OF \<open>check_winning_combination syms0\<close> info(1)])
  qed
qed


lemma save_Inr: "storable s \<Longrightarrow> save s db = Inr (store_row s db)"
  by (simp add: save_def)

lemma save_Inl: "\<not> storable s \<Longrightarrow> save s db = Inl OverflowError"
  by (simp add: save_def)

lemma roll_slots_deduct_overflow:
  assumes "sessions db sid = Some s" and "is_active s" and "1 \<le> credits s"
    and "\<not> storable (s\<lparr>credits := credits s - 1\<rparr>)"
  shows "roll_slots sid (db, g) = (JsonError 500 OverflowError, db, g)"
  using assms
  by (simp add: roll_slots_def get_object_or_404_def can_play_def deduct_credit_def save_Inl
      Let_def)

lemma roll_slots_losing_unfold:
  assumes "sessions db sid = Some s" and "is_active s" and "1 \<le> credits s"
    and "storable (s\<lparr>credits := credits s - 1\<rparr>)"
    and "generate_roll g = (Inr syms0, g1)"
    and "roll_outcome (s\<lparr>credits := credits s - 1\<rparr>) syms0 g1 = (Inr (syms, False, won, rr), g2)"
    and "symbols_display syms = Inr display"
  shows "roll_slots sid (db, g) =
     (if storable_roll
           \<lparr>session = session_id s, symbols = syms, credits_before = credits s,
             credits_after = credits s - 1, credits_won = won, was_winning_roll = False,
             was_rerolled = rr\<rparr>
      then (RollResult syms display False won (credits s - 1) rr,
            (store_row (s\<lparr>credits := credits s - 1\<rparr>) db)
              \<lparr>rolls := rolls db @
                 [\<lparr>session = session_id s, symbols = syms, credits_before = credits s,
                   credits_after = credits s - 1, credits_won = won, was_winning_roll = False,
                   was_rerolled = rr\<rparr>]\<rparr>,
            g2)
      else (JsonError 500 OverflowError, store_row (s\<lparr>credits := credits s - 1\<rparr>) db, g2))"
  using assms
  by (simp add: roll_slots_def get_object_or_404_def can_play_def deduct_credit_def save_Inr
      GameRoll_create_def store_row_def Let_def)

lemma roll_slots_winning_overflow:
  assumes "sessions db sid = Some s" and "is_active s" and "1 \<le> credits s"
    and "storable (s\<lparr>credits := credits s - 1\<rparr>)"
    and "generate_roll g = (Inr syms0, g1)"
    and "roll_outcome (s\<lparr>credits := credits s - 1\<rparr>) syms0 g1 = (Inr (syms, True, won, rr), g2)"
    and "\<not> storable (s\<lparr>credits := credits s - 1 + won\<rparr>)"
  shows "roll_slots sid (db, g) =
     (JsonError 500 OverflowError, store_row (s\<lparr>credits := credits s - 1\<rparr>) db, g2)"
  using assms
  by (simp add: roll_slots_def get_object_or_404_def can_play_def deduct_credit_def save_Inr
      save_Inl add_credits_def Let_def)

lemma roll_slots_winning_unfold:
  assumes "sessions db sid = Some s" and "is_active s" and "1 \<le> credits s"
    and "storable (s\<lparr>credits := credits s - 1\<rparr>)"
    and "generate_roll g = (Inr syms0, g1)"
    and "roll_outcome (s\<lparr>credits := credits s - 1\<rparr>) syms0 g1 = (Inr (syms, True, won, rr), g2)"
    and "storable (s\<lparr>credits := credits s - 1 + won\<rparr>)"
    and "symbols_display syms = Inr display"
  shows "roll_slots sid (db, g) =
     (if storable_roll
           \<lparr>session = session_id s, symbols = syms, credits_before = credits s,
             credits_after = credits s - 1 + won, credits_won = won, was_winning_roll = True,
             was_rerolled = rr\<rparr>
      then (RollResult syms display True won (credits s - 1 + won) rr,
            (store_row (s\<lparr>credits := credits s - 1 + won\<rparr>)
               (store_row (s\<lparr>credits := credits s - 1\<rparr>) db))
              \<lparr>rolls := rolls db @
                 [\<lparr>session = session_id s, symbols = syms, credits_before = credits s,
                   credits_after = credits s - 1 + won, credits_won = won,
                   was_winning_roll = True, was_rerolled = rr\<rparr>]\<rparr>,
            g2)
      else (JsonError 500 OverflowError,
            store_row (s\<lparr>credits := credits s - 1 + won\<rparr>)
              (store_row (s\<lparr>credits := credits s - 1\<rparr>) db), g2))"
  using assms
  by (simp add: roll_slots_def get_object_or_404_def can_play_def deduct_credit_def save_Inr
      add_credits_def GameRoll_create_def store_row_def Let_def)

lemma storable_deducted: "storable s \<Longrightarrow> 1 \<le> credits s \<Longrightarrow> storable (s\<lparr>credits := credits s - 1\<rparr>)"
  by (simp add: storable_def in_column_def)

text \<open>
  The two ways a roll on an active session with a credit ends: an OverflowError, with at
  most the deduction and the win saved and no roll recorded, or a roll recorded.
\<close>

lemma roll_slots_cases:
  assumes st: "sessions db sid = Some s" and act: "is_active s" and cr: "1 \<le> credits s"
  shows
    "(\<exists>db1 g1. roll_slots sid (db, g) = (JsonError 500 OverflowError, db1, g1) \<and>
        rolls db1 = rolls db \<and>
        (sessions db1 = sessions db \<or>
         (\<exists>won. 0 \<le> won \<and>
            sessions db1 = (sessions db)(session_id s \<mapsto> s\<lparr>credits := credits s - 1 + won\<rparr>)))) \<or>
     (\<exists>syms display w won rr db1 g1.
        roll_slots sid (db, g) = (RollResult syms display w won (credits s - 1 + won) rr, db1, g1) \<and>
        rolls db1 = rolls db @
          [\<lparr>session = session_id s, symbols = syms, credits_before = credits s,
            credits_after = credits s - 1 + won, credits_won = won,
            was_winning_roll = w, was_rerolled = rr\<rparr>] \<and>
        saves db1 = saves db @ [s\<lparr>credits := credits s - 1\<rparr>] @
          (if w then [s\<lparr>credits := credits s - 1 + won\<rparr>] else []) \<and>
        sessions db1 = (sessions db)(session_id s \<mapsto> s\<lparr>credits := credits s - 1 + won\<rparr>) \<and>
        length syms = 3 \<and> length display = 3 \<and> w = check_winning_combination syms \<and>
        (if w then won \<in> {10, 20, 30, 40} \<and> \<not> rr else won = 0))"
    (is "?fail \<or> ?ok")
proof (cases "storable (s\<lparr>credits := credits s - 1\<rparr>)")
  case False
  from roll_slots_deduct_overflow [OF st act cr False, of g] have ?fail by simp
  then show ?thesis ..
next
  case sv: True
  let ?s1 = "s\<lparr>credits := credits s - 1\<rparr>"
  from generate_roll_total [of g] obtain syms0 g1 where
    gr: "generate_roll g = (Inr syms0, g1)" and l0: "length syms0 = 3"
    and sub0: "set syms0 \<subseteq> set SYMBOL_NAMES"
    by blast
  from roll_outcome_total [OF l0 sub0, of ?s1 g1] obtain syms w won rr g2 where
    ro: "roll_outcome ?s1 syms0 g1 = (Inr (syms, w, won, rr), g2)"
    and l: "length syms = 3" and sub: "set syms \<subseteq> set SYMBOL_NAMES"
    and w: "w = check_winning_combination syms"
    and won: "if w then won \<in> {10, 20, 30, 40} \<and> \<not> rr else won = 0"
    by blast
  from symbols_display_total [OF sub] l obtain display where
    sd: "symbols_display syms = Inr display" and ld: "length display = 3"
    by auto
  show ?thesis
  proof (cases w)
    case False
    then have won0: "won = 0" using won by simp
    let ?roll = "\<lparr>session = session_id s, symbols = syms, credits_before = credits s,
             credits_after = credits s - 1, credits_won = won, was_winning_roll = False,
             was_rerolled = rr\<rparr>"
    have roF: "roll_outcome ?s1 syms0 g1 = (Inr (syms, False, won, rr), g2)"
      using ro False by simp
    note u = roll_slots_losing_unfold [OF st act cr sv gr roF sd]
    show ?thesis
    proof (cases "storable_roll ?roll")
      case True
      have ?ok
        apply (rule exI [of _ syms], rule exI [of _ display], rule exI [of _ False],
               rule exI [of _ 0], rule exI [of _ rr])
        using u True l ld w False won0 by (simp add: store_row_def)
      then show ?thesis ..
    next
      case nr: False
      have ?fail
        using u nr by (auto simp: store_row_def intro: exI [of _ 0])
      then show ?thesis ..
    qed
  next
    case True
    then have wonpos: "0 \<le> won" and nrr: "\<not> rr" and wonin: "won \<in> {10, 20, 30, 40}"
      using won by auto
    have roT: "roll_outcome ?s1 syms0 g1 = (Inr (syms, True, won, rr), g2)"
      using ro True by simp
    show ?thesis
    proof (cases "storable (s\<lparr>credits := credits s - 1 + won\<rparr>)")
      case False
      have ?fail
        using roll_slots_winning_overflow [OF st act cr sv gr roT False]
        by (auto simp: store_row_def intro: exI [of _ 0])
      then show ?thesis ..
    next
      case sv2: True
      let ?roll = "\<lparr>session = session_id s, symbols = syms, credits_before = credits s,
             credits_after = credits s - 1 + won, credits_won = won, was_winning_roll = True,
             was_rerolled = rr\<rparr>"
      note u = roll_slots_winning_unfold [OF st act cr sv gr roT sv2 sd]
      show ?thesis
      proof (cases "storable_roll ?roll")
        case True
        have ?ok
          apply (rule exI [of _ syms], rule exI [of _ display], rule exI [of _ True],
                 rule exI [of _ won], rule exI [of _ rr])
          using u True l ld w \<open>w\<close> wonin nrr by (simp add: store_row_def)
        then show ?thesis ..
      next
        case nr: False
        have ?fail
          using u nr wonpos by (auto simp: store_row_def)
        then show ?thesis ..
      qed
    qed
  qed
qed

lemma roll_slots_succeeds:
  assumes st: "sessions db sid = Some s" and act: "is_active s" and cr: "1 \<le> credits s"
    and sv: "storable s" and room: "in_column (credits s + 39)"
  shows "\<exists>syms display w won rr db1 g1.
     roll_slots sid (db, g) = (RollResult syms display w won (credits s - 1 + won) rr, db1, g1)"
proof -
  have small: "\<And>won. 0 \<le> won \<Longrightarrow> won \<le> 40 \<Longrightarrow> storable (s\<lparr>credits := credits s - 1 + won\<rparr>)"
    using sv room cr by (simp add: storable_def in_column_def)
  have sv1: "storable (s\<lparr>credits := credits s - 1\<rparr>)" using small [of 0] by simp
  from generate_roll_total [of g] obtain syms0 g1 where
    gr: "generate_roll g = (Inr syms0, g1)" and l0: "length syms0 = 3"
    and sub0: "set syms0 \<subseteq> set SYMBOL_NAMES"
    by blast
  let ?s1 = "s\<lparr>credits := credits s - 1\<rparr>"
  from roll_outcome_total [OF l0 sub0, of ?s1 g1] obtain syms w won rr g2 where
    ro: "roll_outcome ?s1 syms0 g1 = (Inr (syms, w, won, rr), g2)"
    and sub: "set syms \<subseteq> set SYMBOL_NAMES"
    and won: "if w then won \<in> {10, 20, 30, 40} \<and> \<not> rr else won = 0"
    by blast
  from symbols_display_total [OF sub] obtain display where
    sd: "symbols_display syms = Inr display"
    by auto
  have wr: "0 \<le> won" "won \<le> 40" using won by (cases w; auto)+
  have cols: "in_column (credits s)" "in_column (credits s - 1 + won)" "in_column won"
    "in_column (credits s - 1)"
    using sv room cr wr by (simp_all add: storable_def in_column_def)
  show ?thesis
  proof (cases w)
    case False
    then have roF: "roll_outcome ?s1 syms0 g1 = (Inr (syms, False, won, rr), g2)"
      using ro by simp
    have "won = 0" using won False by simp
    then show ?thesis
      using roll_slots_losing_unfold [OF st act cr sv1 gr roF sd] cols
      by (auto simp: storable_roll_def)
  next
    case True
    then have roT: "roll_outcome ?s1 syms0 g1 = (Inr (syms, True, won, rr), g2)"
      using ro by simp
    show ?thesis
      using roll_slots_winning_unfold [OF st act cr sv1 gr roT small [OF wr] sd] cols
      by (auto simp: storable_roll_def)
  qed
qed

lemma roll_slots_poor:
  "sessions db sid = Some s \<Longrightarrow> is_active s \<Longrightarrow> credits s < 1 \<Longrightarrow>
   roll_slots sid (db, g) = (NotEnoughCredits, db, g)"
  by (simp add: roll_slots_def get_object_or_404_def can_play_def)

lemma roll_slots_closed:
  "sessions db sid = None \<or> (\<exists>s. sessions db sid = Some s \<and> \<not> is_active s) \<Longrightarrow>
   roll_slots sid (db, g) = (JsonError 500 Http404, db, g)"
  by (auto simp: roll_slots_def get_object_or_404_def)

lemma cash_out_view_active:
  "sessions db sid = Some s \<Longrightarrow> is_active s \<Longrightarrow> in_column (account_credits s + credits s) \<Longrightarrow>
   cash_out_view sid db =
     (CashedOut True (account_credits s + credits s),
      store_row (s\<lparr>account_credits := account_credits s + credits s, credits := 0,
                   is_active := False\<rparr>) db)"
  by (simp add: cash_out_view_def get_object_or_404_def cash_out_def save_def storable_def
      in_column_def Let_def)

lemma cash_out_view_overflow:
  "sessions db sid = Some s \<Longrightarrow> is_active s \<Longrightarrow> \<not> in_column (account_credits s + credits s) \<Longrightarrow>
   cash_out_view sid db = (JsonError 500 OverflowError, db)"
  by (simp add: cash_out_view_def get_object_or_404_def cash_out_def save_def storable_def Let_def)

lemma cash_out_view_fail:
  "sessions db sid = None \<or> (\<exists>s. sessions db sid = Some s \<and> \<not> is_active s) \<Longrightarrow>
   cash_out_view sid db = (JsonError 500 Http404, db)"
  by (auto simp: cash_out_view_def get_object_or_404_def)

section \<open>Sequences of requests preserve the invariants\<close>

lemma roll_slots_sessions:
  assumes st: "sessions db sid = Some s" and act: "is_active s" and cr: "1 \<le> credits s"
  shows "sessions (fst (snd (roll_slots sid (db, g)))) = sessions db \<or>
     (\<exists>won. 0 \<le> won \<and>
        sessions (fst (snd (roll_slots sid (db, g)))) =
          (sessions db)(session_id s \<mapsto> s\<lparr>credits := credits s - 1 + won\<rparr>))"
proof -
  from roll_slots_cases [OF st act cr, of g] show ?thesis
  proof
    assume "\<exists>db1 g1. roll_slots sid (db, g) = (JsonError 500 OverflowError, db1, g1) \<and>
        rolls db1 = rolls db \<and>
        (sessions db1 = sessions db \<or>
         (\<exists>won. 0 \<le> won \<and>
            sessions db1 = (sessions db)(session_id s \<mapsto> s\<lparr>credits := credits s - 1 + won\<rparr>)))"
    then show ?thesis by auto
  next
    assume "\<exists>syms display w won rr db1 g1.
        roll_slots sid (db, g) = (RollResult syms display w won (credits s - 1 + won) rr, db1, g1) \<and>
        rolls db1 = rolls db @
          [\<lparr>session = session_id s, symbols = syms, credits_before = credits s,
            credits_after = credits s - 1 + won, credits_won = won,
            was_winning_roll = w, was_rerolled = rr\<rparr>] \<and>
        saves db1 = saves db @ [s\<lparr>credits := credits s - 1\<rparr>] @
          (if w then [s\<lparr>credits := credits s - 1 + won\<rparr>] else []) \<and>
        sessions db1 = (sessions db)(session_id s \<mapsto> s\<lparr>credits := credits s - 1 + won\<rparr>) \<and>
        length syms = 3 \<and> length display = 3 \<and> w = check_winning_combination syms \<and>
        (if w then won \<in> {10, 20, 30, 40} \<and> \<not> rr else won = 0)"
    then obtain w won rr db1 where
      a: "fst (snd (roll_slots sid (db, g))) = db1"
      "sessions db1 = (sessions db)(session_id s \<mapsto> s\<lparr>credits := credits s - 1 + won\<rparr>)"
      "if w then won \<in> {10, 20, 30, 40} \<and> \<not> rr else won = 0"
      by fastforce
    have "0 \<le> won" using a(3) by (cases w) auto
    then show ?thesis using a by auto
  qed
qed

text \<open>What a request does to the session table.\<close>

lemma step_sessions:
  "sessions (fst (snd (step op (db, g)))) = sessions db \<or>
   (\<exists>u. op = CreateSession u \<and> sessions db u = None \<and>
        sessions (fst (snd (step op (db, g)))) =
          (sessions db)(u \<mapsto> \<lparr>session_id = u, credits = 10, account_credits = 0, is_active = True\<rparr>)) \<or>
   (\<exists>sid s won. op = PlayRoll sid \<and> sessions db sid = Some s \<and> is_active s \<and> 1 \<le> credits s \<and>
        0 \<le> won \<and>
        sessions (fst (snd (step op (db, g)))) =
          (sessions db)(session_id s \<mapsto> s\<lparr>credits := credits s - 1 + won\<rparr>)) \<or>
   (\<exists>sid s. op = CashOut sid \<and> sessions db sid = Some s \<and> is_active s \<and>
        sessions (fst (snd (step op (db, g)))) =
          (sessions db)(session_id s \<mapsto>
             s\<lparr>account_credits := account_credits s + credits s, credits := 0, is_active := False\<rparr>))"
proof (cases op)
  case (CreateSession u)
  then show ?thesis
    by (auto simp: create_session_def save_def store_row_def Let_def split: sum.splits)
next
  case (PlayRoll sid)
  show ?thesis
  proof (cases "sessions db sid")
    case None
    then show ?thesis using PlayRoll by (simp add: roll_slots_closed)
  next
    case (Some s)
    show ?thesis
    proof (cases "is_active s")
      case False
      then show ?thesis using PlayRoll Some by (simp add: roll_slots_closed)
    next
      case True
      show ?thesis
      proof (cases "1 \<le> credits s")
        case False
        then show ?thesis using PlayRoll Some True by (simp add: roll_slots_poor)
      next
        case cr: True
        from roll_slots_sessions [OF Some True cr, of g] show ?thesis
          using PlayRoll Some True cr by auto
      qed
    qed
  qed
next
  case (CashOut sid)
  show ?thesis
  proof (cases "sessions db sid")
    case None
    then show ?thesis using CashOut by (simp add: cash_out_view_fail)
  next
    case (Some s)
    show ?thesis
    proof (cases "is_active s")
      case False
      then show ?thesis using CashOut Some by (simp add: cash_out_view_fail)
    next
      case True
      then show ?thesis using CashOut Some
        by (cases "in_column (account_credits s + credits s)")
          (simp_all add: cash_out_view_active cash_out_view_overflow store_row_def)
    qed
  qed
next
  case (GetStatus sid)
  then show ?thesis by (simp add: get_session_status_def split: sum.splits)
qed

lemma step_keyed: "keyed db \<Longrightarrow> keyed (fst (snd (step op (db, g))))"
  using step_sessions [of op db g] unfolding keyed_def
  by (elim disjE exE conjE) (auto split: if_splits)

lemma step_credits_nonneg: "credits_nonneg db \<Longrightarrow> credits_nonneg (fst (snd (step op (db, g))))"
  using step_sessions [of op db g] unfolding credits_nonneg_def
  by (elim disjE exE conjE) (auto split: if_splits)

lemma step_closed_empty: "closed_empty db \<Longrightarrow> closed_empty (fst (snd (step op (db, g))))"
  using step_sessions [of op db g] unfolding closed_empty_def
  by (elim disjE exE conjE) (auto split: if_splits)

lemma step_closed_row:
  assumes "keyed db" and "sessions db k = Some s" and "\<not> is_active s"
  shows "sessions (fst (snd (step op (db, g)))) k = Some s"
  using step_sessions [of op db g] assms unfolding keyed_def
  by (elim disjE exE conjE) (auto split: if_splits)

lemma run_invariant:
  assumes "\<And>db g op. P db \<Longrightarrow> P (fst (snd (step op (db, g))))"
  shows "P (fst w) \<Longrightarrow> P (fst (run ops w))"
proof (induction ops arbitrary: w)
  case Nil
  then show ?case by simp
next
  case (Cons op ops)
  obtain db g where w: "w = (db, g)" by (cases w)
  obtain r db1 g1 where s: "step op (db, g) = (r, db1, g1)" by (cases "step op (db, g)")
  have "P db1" using assms [of db op g] Cons.prems w s by simp
  then show ?case using Cons.IH [of "(db1, g1)"] w s by simp
qed

lemma run_keyed: "keyed (fst w) \<Longrightarrow> keyed (fst (run ops w))"
  by (rule run_invariant) (rule step_keyed)

lemma run_credits_nonneg: "credits_nonneg (fst w) \<Longrightarrow> credits_nonneg (fst (run ops w))"
  by (rule run_invariant) (rule step_credits_nonneg)

lemma run_closed_empty: "closed_empty (fst w) \<Longrightarrow> closed_empty (fst (run ops w))"
  by (rule run_invariant) (rule step_closed_empty)

lemma run_closed_row:
  "keyed (fst w) \<Longrightarrow> sessions (fst w) k = Some s \<Longrightarrow> \<not> is_active s \<Longrightarrow>
   sessions (fst (run ops w)) k = Some s"
proof (induction ops arbitrary: w)
  case Nil
  then show ?case by simp
next
  case (Cons op ops)
  obtain db g where w: "w = (db, g)" by (cases w)
  obtain r db1 g1 where s: "step op (db, g) = (r, db1, g1)" by (cases "step op (db, g)")
  have "keyed db1" using step_keyed [of db op g] Cons.prems w s by simp
  moreover have "sessions db1 k = Some s"
    using step_closed_row [of db k s op g] Cons.prems w s by simp
  ultimately show ?case using Cons.IH [of "(db1, g1)"] Cons.prems w s by simp
qed

lemma empty_db_invariants: "keyed empty_db" "credits_nonneg empty_db" "closed_empty empty_db"
  by (simp_all add: keyed_def credits_nonneg_def closed_empty_def empty_db_def)


lemma credits_nonneg_db_with: "0 \<le> c \<Longrightarrow> credits_nonneg (db_with u c)"
  by (simp add: credits_nonneg_def db_with_def store_row_def empty_db_def new_session_def)

lemma roll_slots_losing:
  assumes st: "sessions db sid = Some s" and act: "is_active s" and cr: "1 \<le> credits s"
    and sv: "storable s"
    and gr: "generate_roll g = (Inr syms0, g1)" and lose: "\<not> check_winning_combination syms0"
    and sd: "symbols_display syms0 = Inr display"
  shows "roll_slots sid (db, g) =
     (RollResult syms0 display False 0 (credits s - 1) False,
      (store_row (s\<lparr>credits := credits s - 1\<rparr>) db)
        \<lparr>rolls := rolls db @
           [\<lparr>session = session_id s, symbols = syms0, credits_before = credits s,
             credits_after = credits s - 1, credits_won = 0, was_winning_roll = False,
             was_rerolled = False\<rparr>]\<rparr>,
      g1)"
proof -
  have cols: "in_column (credits s)" "in_column (credits s - 1)" "in_column 0"
    using sv cr by (simp_all add: storable_def in_column_def)
  show ?thesis
    using roll_slots_losing_unfold [OF st act cr storable_deducted [OF sv cr] gr
        roll_outcome_losing [OF lose] sd] cols
    by (simp add: storable_roll_def)
qed

section \<open>The fixtures, evaluated\<close>

lemma random_choices_3: "random_choices 3 xs g = random_choices (Suc (Suc (Suc 0))) xs g"
  by (simp add: numeral_3_eq_3)

lemma generate_roll_picks:
  "generate_roll g =
     (Inr [SYMBOL_NAMES ! (choice_at g (choice_used g) mod 4),
           SYMBOL_NAMES ! (choice_at g (choice_used g + 1) mod 4),
           SYMBOL_NAMES ! (choice_at g (choice_used g + 2) mod 4)],
      g\<lparr>choice_used := choice_used g + 3\<rparr>)"
proof -
  have len: "length SYMBOL_NAMES = 4" "SYMBOL_NAMES \<noteq> []" by (simp_all add: SYMBOL_NAMES_eq)
  show ?thesis
    unfolding generate_roll_def random_choices_3
    by (simp add: random_choice_def len)
qed

lemma mock_generate_roll:
  "generate_roll (mock_rng (\<lambda>n. 0) r) =
     (Inr [''cherry'', ''cherry'', ''cherry''], (mock_rng (\<lambda>n. 0) r)\<lparr>choice_used := 3\<rparr>)"
  by (simp add: generate_roll_picks) (simp add: mock_rng_def SYMBOL_NAMES_eq)

lemma mock_generate_losing_roll:
  "generate_losing_roll ((mock_rng (\<lambda>n. 0) r)\<lparr>choice_used := 3, random_used := k\<rparr>) =
     (Inr [''cherry'', ''cherry'', ''lemon''],
      (mock_rng (\<lambda>n. 0) r)\<lparr>choice_used := 7, random_used := k\<rparr>)"
proof -
  let ?g = "(mock_rng (\<lambda>n. 0) r)\<lparr>choice_used := 3, random_used := k\<rparr>"
  have "generate_roll ?g =
     (Inr [''cherry'', ''cherry'', ''cherry''], (mock_rng (\<lambda>n. 0) r)\<lparr>choice_used := 6, random_used := k\<rparr>)"
    by (simp add: generate_roll_picks) (simp add: mock_rng_def SYMBOL_NAMES_eq)
  then have "random_choices 3 SYMBOL_NAMES ?g =
     (Inr [''cherry'', ''cherry'', ''cherry''], (mock_rng (\<lambda>n. 0) r)\<lparr>choice_used := 6, random_used := k\<rparr>)"
    by (simp add: generate_roll_def)
  then show ?thesis
    by (simp add: generate_losing_roll_def SYMBOL_NAMES_eq random_choice_def mock_rng_def)
qed

lemma counting_generate_roll:
  "generate_roll (mock_rng (\<lambda>n. n) r) =
     (Inr [''cherry'', ''lemon'', ''orange''], (mock_rng (\<lambda>n. n) r)\<lparr>choice_used := 3\<rparr>)"
  by (simp add: generate_roll_picks) (simp add: mock_rng_def SYMBOL_NAMES_eq)

lemma cherry_wins: "check_winning_combination [''cherry'', ''cherry'', ''cherry'']"
  by (simp add: check_winning_combination3)

lemma counting_not_winning: "\<not> check_winning_combination [''cherry'', ''lemon'', ''orange'']"
  by (simp add: check_winning_combination3)

lemma cherry_info: "SYMBOLS_get ''cherry'' = Inr \<lparr>letter = ''C'', reward = 10\<rparr>"
  by (simp add: SYMBOLS_get_def SYMBOLS_def)

lemma lemon_info: "SYMBOLS_get ''lemon'' = Inr \<lparr>letter = ''L'', reward = 20\<rparr>"
  by (simp add: SYMBOLS_get_def SYMBOLS_def)

lemma cherry_display: "symbols_display [''cherry'', ''cherry'', ''cherry''] = Inr [''C'', ''C'', ''C'']"
  by (simp add: cherry_info)

lemma counting_display:
  "symbols_display [''cherry'', ''lemon'', ''orange''] = Inr [''C'', ''L'', ''O'']"
  by (simp add: SYMBOLS_get_def SYMBOLS_def)

lemma cheat_below_40: "c + p < 40 \<Longrightarrow> should_server_cheat c p g = (False, g)"
  by (simp add: should_server_cheat_def)

lemma cheat_29_10: "should_server_cheat 29 10 g = (False, g)"
  by (simp add: should_server_cheat_def)

lemma cheat_30_10:
  "should_server_cheat 30 10 ((mock_rng pick 0)\<lparr>choice_used := 3\<rparr>) =
     (True, (mock_rng pick 0)\<lparr>choice_used := 3, random_used := 1\<rparr>)"
  by (simp add: should_server_cheat_def random_random_def mock_rng_def float_0_3_def)

lemma cheat_top:
  "60 < c + 10 \<Longrightarrow>
   should_server_cheat c 10 ((mock_rng pick 0.9)\<lparr>choice_used := 3\<rparr>) =
     (False, (mock_rng pick 0.9)\<lparr>choice_used := 3, random_used := 1\<rparr>)"
  by (simp add: should_server_cheat_def random_random_def mock_rng_def float_0_6_def)

lemma db_with_lookup: "sessions (db_with u c) u = Some (new_session u c)"
  by (simp add: db_with_def store_row_def new_session_def)

lemma new_session_fields:
  "session_id (new_session u c) = u" "credits (new_session u c) = c"
  "account_credits (new_session u c) = 0" "is_active (new_session u c)"
  by (simp_all add: new_session_def)

lemma example_run:
  "run [CreateSession 7, PlayRoll 7, CashOut 7] (empty_db, mock_rng (\<lambda>n. n) 0) =
     (\<lparr>sessions = [7 \<mapsto> \<lparr>session_id = 7, credits = 0, account_credits = 9, is_active = False\<rparr>],
       rolls = [\<lparr>session = 7, symbols = [''cherry'', ''lemon'', ''orange''], credits_before = 10,
                 credits_after = 9, credits_won = 0, was_winning_roll = False,
                 was_rerolled = False\<rparr>],
       saves = [\<lparr>session_id = 7, credits = 10, account_credits = 0, is_active = True\<rparr>,
                \<lparr>session_id = 7, credits = 9, account_credits = 0, is_active = True\<rparr>,
                \<lparr>session_id = 7, credits = 0, account_credits = 9, is_active = False\<rparr>]\<rparr>,
      (mock_rng (\<lambda>n. n) 0)\<lparr>choice_used := 3\<rparr>)"
proof -
  let ?g = "mock_rng (\<lambda>n. n) 0"
  let ?db2 = "\<lparr>sessions = [7 \<mapsto> \<lparr>session_id = 7, credits = 9, account_credits = 0, is_active = True\<rparr>],
       rolls = [\<lparr>session = 7, symbols = [''cherry'', ''lemon'', ''orange''], credits_before = 10,
                 credits_after = 9, credits_won = 0, was_winning_roll = False,
                 was_rerolled = False\<rparr>],
       saves = [\<lparr>session_id = 7, credits = 10, account_credits = 0, is_active = True\<rparr>,
                \<lparr>session_id = 7, credits = 9, account_credits = 0, is_active = True\<rparr>]\<rparr>"
  have e1: "snd (step (CreateSession 7) (empty_db, ?g)) = (db_with 7 10, ?g)"
    by (simp add: create_session_def save_def storable_def in_column_def db_with_def
        new_session_def empty_db_def)
  have a: "is_active (new_session 7 10)" "1 \<le> credits (new_session 7 10)"
    "storable (new_session 7 10)"
    by (simp_all add: new_session_def storable_def in_column_def)
  have e2: "snd (step (PlayRoll 7) (db_with 7 10, ?g)) = (?db2, ?g\<lparr>choice_used := 3\<rparr>)"
    using roll_slots_losing [OF db_with_lookup a counting_generate_roll [of 0]
        counting_not_winning counting_display]
    by (simp add: store_row_def db_with_def new_session_def empty_db_def)
  have l: "sessions ?db2 7 = Some \<lparr>session_id = 7, credits = 9, account_credits = 0, is_active = True\<rparr>"
    by simp
  have e3: "snd (step (CashOut 7) (?db2, ?g\<lparr>choice_used := 3\<rparr>)) =
     (store_row \<lparr>session_id = 7, credits = 0, account_credits = 9, is_active = False\<rparr> ?db2,
      ?g\<lparr>choice_used := 3\<rparr>)"
    using cash_out_view_active [OF l] by (simp add: in_column_def)
  show ?thesis
    by (simp only: run.simps e1 e2 e3) (simp add: store_row_def)
qed

section \<open>The claims\<close>

text \<open>
  Claim C1. For non-negative \<^verbatim>\<open>current_credits\<close> and \<^verbatim>\<open>potential_win_credits\<close> with sum
  \<^verbatim>\<open>future_credits\<close>: below 40 \<^verbatim>\<open>should_server_cheat\<close> returns False and leaves the
  random source as it is; from 40 to 60 it takes exactly one draw \<^verbatim>\<open>r\<close> of
  \<^verbatim>\<open>random.random\<close> and returns whether \<^verbatim>\<open>r < 0.3\<close>; above 60 it takes exactly one draw
  and returns whether \<^verbatim>\<open>r < 0.6\<close>. The two bounds are the floats that the literals denote.
\<close>

theorem should_server_cheat_thresholds:
  assumes "0 \<le> current_credits" and "0 \<le> potential_win_credits"
  shows
    "(current_credits + potential_win_credits < 40 \<longrightarrow>
        should_server_cheat current_credits potential_win_credits g = (False, g)) \<and>
     (40 \<le> current_credits + potential_win_credits \<and>
      current_credits + potential_win_credits \<le> 60 \<longrightarrow>
        should_server_cheat current_credits potential_win_credits g =
          (random_at g (random_used g) < float_0_3, g\<lparr>random_used := random_used g + 1\<rparr>)) \<and>
     (60 < current_credits + potential_win_credits \<longrightarrow>
        should_server_cheat current_credits potential_win_credits g =
          (random_at g (random_used g) < float_0_6, g\<lparr>random_used := random_used g + 1\<rparr>))"
  by (simp add: should_server_cheat_def random_random_def Let_def)

text \<open>
  The cases of \<^verbatim>\<open>tests.py\<close>: 30 + 5 never cheats; 35 + 10 cheats on the draw 0.2 and
  not on 0.4; 55 + 10 cheats on the draw 0.5 and not on 0.7.
\<close>

theorem should_server_cheat_thresholds_witness:
  "should_server_cheat 30 5 (mock_rng (\<lambda>n. 0) 0) = (False, mock_rng (\<lambda>n. 0) 0) \<and>
   should_server_cheat 35 10 (mock_rng (\<lambda>n. 0) 0.2) =
     (True, (mock_rng (\<lambda>n. 0) 0.2)\<lparr>random_used := 1\<rparr>) \<and>
   should_server_cheat 35 10 (mock_rng (\<lambda>n. 0) 0.4) =
     (False, (mock_rng (\<lambda>n. 0) 0.4)\<lparr>random_used := 1\<rparr>) \<and>
   should_server_cheat 55 10 (mock_rng (\<lambda>n. 0) 0.5) =
     (True, (mock_rng (\<lambda>n. 0) 0.5)\<lparr>random_used := 1\<rparr>) \<and>
   should_server_cheat 55 10 (mock_rng (\<lambda>n. 0) 0.7) =
     (False, (mock_rng (\<lambda>n. 0) 0.7)\<lparr>random_used := 1\<rparr>)"
  using should_server_cheat_thresholds [of 30 5 "mock_rng (\<lambda>n. 0) 0"]
    should_server_cheat_thresholds [of 35 10 "mock_rng (\<lambda>n. 0) 0.2"]
    should_server_cheat_thresholds [of 35 10 "mock_rng (\<lambda>n. 0) 0.4"]
    should_server_cheat_thresholds [of 55 10 "mock_rng (\<lambda>n. 0) 0.5"]
    should_server_cheat_thresholds [of 55 10 "mock_rng (\<lambda>n. 0) 0.7"]
  by (simp add: mock_rng_def float_0_3_def float_0_6_def)

text \<open>
  Claim C2. Every successful call of \<^verbatim>\<open>roll_slots\<close> (one that answers with status 200) is
  a call for an active session with at least one credit, and it creates exactly one
  \<^verbatim>\<open>GameRoll\<close>, whose fields satisfy \<^verbatim>\<open>credits_after = credits_before - 1 + credits_won\<close>.
  The session is saved once with one credit less (the deduction) and then at most once
  more, with the win added; it ends with \<^verbatim>\<open>credits_after\<close> credits. Such calls exist: a
  call for an active session with at least one credit is successful whenever the row is
  within the range of its columns and leaves room for the largest reward.
\<close>

theorem roll_slots_credit_conservation:
  "(status_code (fst (roll_slots sid (db, g))) = 200 \<longrightarrow>
      (\<exists>s roll display.
         sessions db sid = Some s \<and> is_active s \<and> 1 \<le> credits s \<and>
         fst (roll_slots sid (db, g)) =
           RollResult (symbols roll) display (was_winning_roll roll) (credits_won roll)
             (credits_after roll) (was_rerolled roll) \<and>
         rolls (fst (snd (roll_slots sid (db, g)))) = rolls db @ [roll] \<and>
         session roll = session_id s \<and>
         credits_before roll = credits s \<and>
         credits_after roll = credits_before roll - 1 + credits_won roll \<and>
         saves (fst (snd (roll_slots sid (db, g)))) =
           saves db @ [s\<lparr>credits := credits s - 1\<rparr>] @
             (if was_winning_roll roll then [s\<lparr>credits := credits s - 1 + credits_won roll\<rparr>]
              else []) \<and>
         sessions (fst (snd (roll_slots sid (db, g)))) =
           (sessions db)(session_id s \<mapsto> s\<lparr>credits := credits_after roll\<rparr>))) \<and>
   (sessions db sid = Some s0 \<and> is_active s0 \<and> 1 \<le> credits s0 \<and> storable s0 \<and>
    in_column (credits s0 + 39) \<longrightarrow>
      status_code (fst (roll_slots sid (db, g))) = 200)"
proof (intro conjI impI)
  assume "sessions db sid = Some s0 \<and> is_active s0 \<and> 1 \<le> credits s0 \<and> storable s0 \<and>
    in_column (credits s0 + 39)"
  then have a: "sessions db sid = Some s0" "is_active s0" "1 \<le> credits s0" "storable s0"
    "in_column (credits s0 + 39)"
    by simp_all
  from roll_slots_succeeds [OF a, of g] show "status_code (fst (roll_slots sid (db, g))) = 200"
    by auto
next
  assume ok: "status_code (fst (roll_slots sid (db, g))) = 200"
  have n1: "sessions db sid \<noteq> None"
  proof
    assume "sessions db sid = None"
    then have "roll_slots sid (db, g) = (JsonError 500 Http404, db, g)"
      by (simp add: roll_slots_closed)
    with ok show False by simp
  qed
  then obtain s where st: "sessions db sid = Some s" by auto
  have act: "is_active s"
  proof (rule ccontr)
    assume "\<not> is_active s"
    with st have "roll_slots sid (db, g) = (JsonError 500 Http404, db, g)"
      by (simp add: roll_slots_closed)
    with ok show False by simp
  qed
  have cr: "1 \<le> credits s"
  proof (rule ccontr)
    assume "\<not> 1 \<le> credits s"
    with st act have "roll_slots sid (db, g) = (NotEnoughCredits, db, g)"
      by (simp add: roll_slots_poor)
    with ok show False by simp
  qed
  from roll_slots_cases [OF st act cr, of g] ok obtain syms display w won rr db1 g1 where
    r: "roll_slots sid (db, g) = (RollResult syms display w won (credits s - 1 + won) rr, db1, g1)"
    and a: "rolls db1 = rolls db @
          [\<lparr>session = session_id s, symbols = syms, credits_before = credits s,
            credits_after = credits s - 1 + won, credits_won = won,
            was_winning_roll = w, was_rerolled = rr\<rparr>]"
    and b: "saves db1 = saves db @ [s\<lparr>credits := credits s - 1\<rparr>] @
          (if w then [s\<lparr>credits := credits s - 1 + won\<rparr>] else [])"
    and c: "sessions db1 = (sessions db)(session_id s \<mapsto> s\<lparr>credits := credits s - 1 + won\<rparr>)"
    by auto
  define roll where "roll = \<lparr>session = session_id s, symbols = syms, credits_before = credits s,
         credits_after = credits s - 1 + won, credits_won = won,
         was_winning_roll = w, was_rerolled = rr\<rparr>"
  have sel: "session roll = session_id s" "credits_before roll = credits s"
    "credits_after roll = credits s - 1 + won" "credits_won roll = won"
    "was_winning_roll roll = w" "symbols roll = syms" "was_rerolled roll = rr"
    by (simp_all add: roll_def)
  have "sessions db sid = Some s \<and> is_active s \<and> 1 \<le> credits s \<and>
         fst (roll_slots sid (db, g)) =
           RollResult (symbols roll) display (was_winning_roll roll) (credits_won roll)
             (credits_after roll) (was_rerolled roll) \<and>
         rolls (fst (snd (roll_slots sid (db, g)))) = rolls db @ [roll] \<and>
         session roll = session_id s \<and>
         credits_before roll = credits s \<and>
         credits_after roll = credits_before roll - 1 + credits_won roll \<and>
         saves (fst (snd (roll_slots sid (db, g)))) =
           saves db @ [s\<lparr>credits := credits s - 1\<rparr>] @
             (if was_winning_roll roll then [s\<lparr>credits := credits s - 1 + credits_won roll\<rparr>]
              else []) \<and>
         sessions (fst (snd (roll_slots sid (db, g)))) =
           (sessions db)(session_id s \<mapsto> s\<lparr>credits := credits_after roll\<rparr>)"
    using st act cr r a b c unfolding sel by (simp add: roll_def)
  then show "\<exists>s roll display.
         sessions db sid = Some s \<and> is_active s \<and> 1 \<le> credits s \<and>
         fst (roll_slots sid (db, g)) =
           RollResult (symbols roll) display (was_winning_roll roll) (credits_won roll)
             (credits_after roll) (was_rerolled roll) \<and>
         rolls (fst (snd (roll_slots sid (db, g)))) = rolls db @ [roll] \<and>
         session roll = session_id s \<and>
         credits_before roll = credits s \<and>
         credits_after roll = credits_before roll - 1 + credits_won roll \<and>
         saves (fst (snd (roll_slots sid (db, g)))) =
           saves db @ [s\<lparr>credits := credits s - 1\<rparr>] @
             (if was_winning_roll roll then [s\<lparr>credits := credits s - 1 + credits_won roll\<rparr>]
              else []) \<and>
         sessions (fst (snd (roll_slots sid (db, g)))) =
           (sessions db)(session_id s \<mapsto> s\<lparr>credits := credits_after roll\<rparr>)"
    by blast
qed

text \<open>
  The scenario of the specification: a new session (10 credits), the roll forced to three
  cherries, a balance too low for the server to cheat: 10 credits won, 19 in total.
\<close>

theorem roll_slots_credit_conservation_witness:
  "roll_slots 7 (db_with 7 10, mock_rng (\<lambda>n. 0) 0) =
     (RollResult [''cherry'', ''cherry'', ''cherry''] [''C'', ''C'', ''C''] True 10 19 False,
      \<lparr>sessions = [7 \<mapsto> \<lparr>session_id = 7, credits = 19, account_credits = 0, is_active = True\<rparr>],
        rolls = [\<lparr>session = 7, symbols = [''cherry'', ''cherry'', ''cherry''],
                  credits_before = 10, credits_after = 19, credits_won = 10,
                  was_winning_roll = True, was_rerolled = False\<rparr>],
        saves = [\<lparr>session_id = 7, credits = 10, account_credits = 0, is_active = True\<rparr>,
                 \<lparr>session_id = 7, credits = 9, account_credits = 0, is_active = True\<rparr>,
                 \<lparr>session_id = 7, credits = 19, account_credits = 0, is_active = True\<rparr>]\<rparr>,
      (mock_rng (\<lambda>n. 0) 0)\<lparr>choice_used := 3\<rparr>) \<and>
   status_code (fst (roll_slots 7 (db_with 7 10, mock_rng (\<lambda>n. 0) 0))) = 200 \<and>
   credits_after (last (rolls (fst (snd (roll_slots 7 (db_with 7 10, mock_rng (\<lambda>n. 0) 0)))))) =
     credits_before (last (rolls (fst (snd (roll_slots 7 (db_with 7 10, mock_rng (\<lambda>n. 0) 0)))))) - 1
     + credits_won (last (rolls (fst (snd (roll_slots 7 (db_with 7 10, mock_rng (\<lambda>n. 0) 0))))))"
proof -
  let ?g = "mock_rng (\<lambda>n. 0) 0"
  let ?s = "new_session 7 10"
  have a: "is_active ?s" "1 \<le> credits ?s"
    and sv: "storable ?s" "in_column (credits ?s + 39)"
    "storable (?s\<lparr>credits := credits ?s - 1\<rparr>)"
    "storable (?s\<lparr>credits := credits ?s - 1 + 10\<rparr>)"
    by (simp_all add: new_session_def storable_def in_column_def)
  have ro: "roll_outcome (?s\<lparr>credits := credits ?s - 1\<rparr>)
        [''cherry'', ''cherry'', ''cherry''] (?g\<lparr>choice_used := 3\<rparr>) =
      (Inr ([''cherry'', ''cherry'', ''cherry''], True, 10, False), ?g\<lparr>choice_used := 3\<rparr>)"
    using roll_outcome_winning [OF cherry_wins, of "\<lparr>letter = ''C'', reward = 10\<rparr>"]
    by (simp add: cherry_info cheat_below_40 new_session_def)
  have ev: "roll_slots 7 (db_with 7 10, ?g) =
     (RollResult [''cherry'', ''cherry'', ''cherry''] [''C'', ''C'', ''C''] True 10 19 False,
      \<lparr>sessions = [7 \<mapsto> \<lparr>session_id = 7, credits = 19, account_credits = 0, is_active = True\<rparr>],
        rolls = [\<lparr>session = 7, symbols = [''cherry'', ''cherry'', ''cherry''],
                  credits_before = 10, credits_after = 19, credits_won = 10,
                  was_winning_roll = True, was_rerolled = False\<rparr>],
        saves = [\<lparr>session_id = 7, credits = 10, account_credits = 0, is_active = True\<rparr>,
                 \<lparr>session_id = 7, credits = 9, account_credits = 0, is_active = True\<rparr>,
                 \<lparr>session_id = 7, credits = 19, account_credits = 0, is_active = True\<rparr>]\<rparr>,
      ?g\<lparr>choice_used := 3\<rparr>)"
    using roll_slots_winning_unfold [OF db_with_lookup a sv(3) mock_generate_roll [of 0] ro sv(4)
        cherry_display]
    by (simp add: store_row_def db_with_def new_session_def empty_db_def storable_roll_def
        in_column_def)
  note t = roll_slots_credit_conservation [of 7 "db_with 7 10" ?g ?s]
  have ok: "status_code (fst (roll_slots 7 (db_with 7 10, ?g))) = 200"
    using t db_with_lookup [of 7 10] a sv(1,2) by blast
  with t obtain roll where
    "rolls (fst (snd (roll_slots 7 (db_with 7 10, ?g)))) = rolls (db_with 7 10) @ [roll]"
    "credits_after roll = credits_before roll - 1 + credits_won roll"
    by blast
  then have "credits_after (last (rolls (fst (snd (roll_slots 7 (db_with 7 10, ?g)))))) =
     credits_before (last (rolls (fst (snd (roll_slots 7 (db_with 7 10, ?g)))))) - 1
     + credits_won (last (rolls (fst (snd (roll_slots 7 (db_with 7 10, ?g))))))"
    by simp
  with ev ok show ?thesis by (simp only: simp_thms)
qed

text \<open>
  Claim C3. Start from the empty database and run any requests \<^verbatim>\<open>ops1\<close>. If a session is
  then closed, it holds no credits, and after any further requests \<^verbatim>\<open>ops2\<close> its row is
  still the same (closed, no credits), and a \<^verbatim>\<open>roll_slots\<close> or \<^verbatim>\<open>cash_out\<close> request for
  its identifier fails and changes nothing.
\<close>

theorem closed_session_stays_closed:
  assumes "sessions (fst (run ops1 (empty_db, g0))) sid = Some s" and "\<not> is_active s"
  shows "credits s = 0 \<and>
     sessions (fst (run ops2 (run ops1 (empty_db, g0)))) sid = Some s \<and>
     step (PlayRoll sid) (run ops2 (run ops1 (empty_db, g0))) =
       (JsonError 500 Http404, run ops2 (run ops1 (empty_db, g0))) \<and>
     step (CashOut sid) (run ops2 (run ops1 (empty_db, g0))) =
       (JsonError 500 Http404, run ops2 (run ops1 (empty_db, g0)))"
proof -
  let ?w1 = "run ops1 (empty_db, g0)"
  have k1: "keyed (fst ?w1)" and c1: "closed_empty (fst ?w1)"
    by (simp_all add: run_keyed run_closed_empty empty_db_invariants)
  have zero: "credits s = 0" using c1 assms by (auto simp: closed_empty_def)
  obtain db2 g2 where w2: "run ops2 ?w1 = (db2, g2)" by (cases "run ops2 ?w1")
  have row: "sessions db2 sid = Some s"
    using run_closed_row [OF k1 assms, of ops2] w2 by simp
  have "roll_slots sid (db2, g2) = (JsonError 500 Http404, db2, g2)"
    using row assms(2) by (simp add: roll_slots_closed)
  moreover have "cash_out_view sid db2 = (JsonError 500 Http404, db2)"
    using row assms(2) by (simp add: cash_out_view_fail)
  ultimately show ?thesis using zero row w2 by simp
qed

text \<open>
  A session is created, plays a losing roll and cashes out 9 credits; whatever is
  requested afterwards, it stays closed with no credits.
\<close>

theorem closed_session_stays_closed_witness:
  "credits \<lparr>session_id = 7, credits = 0, account_credits = 9, is_active = False\<rparr> = 0 \<and>
   sessions (fst (run [PlayRoll 7, CashOut 7, GetStatus 7, CreateSession 7, CreateSession 8, PlayRoll 8]
      (run [CreateSession 7, PlayRoll 7, CashOut 7] (empty_db, mock_rng (\<lambda>n. n) 0)))) 7 =
     Some \<lparr>session_id = 7, credits = 0, account_credits = 9, is_active = False\<rparr> \<and>
   fst (step (PlayRoll 7)
     (run [PlayRoll 7, CashOut 7, GetStatus 7, CreateSession 7, CreateSession 8, PlayRoll 8]
        (run [CreateSession 7, PlayRoll 7, CashOut 7] (empty_db, mock_rng (\<lambda>n. n) 0)))) =
     JsonError 500 Http404 \<and>
   fst (step (CashOut 7)
     (run [PlayRoll 7, CashOut 7, GetStatus 7, CreateSession 7, CreateSession 8, PlayRoll 8]
        (run [CreateSession 7, PlayRoll 7, CashOut 7] (empty_db, mock_rng (\<lambda>n. n) 0)))) =
     JsonError 500 Http404"
proof -
  have h: "sessions (fst (run [CreateSession 7, PlayRoll 7, CashOut 7] (empty_db, mock_rng (\<lambda>n. n) 0))) 7 =
      Some \<lparr>session_id = 7, credits = 0, account_credits = 9, is_active = False\<rparr>"
    and n: "\<not> is_active \<lparr>session_id = 7, credits = 0, account_credits = 9, is_active = False\<rparr>"
    unfolding example_run by simp_all
  from closed_session_stays_closed [OF h n,
      of "[PlayRoll 7, CashOut 7, GetStatus 7, CreateSession 7, CreateSession 8, PlayRoll 8]"]
  show ?thesis by simp
qed

text \<open>
  Claim C4. Whatever the random source holds, \<^verbatim>\<open>generate_losing_roll\<close> returns (it raises
  nothing) a list of three symbol names on which \<^verbatim>\<open>check_winning_combination\<close> is false.
\<close>

theorem generate_losing_roll_never_wins:
  "\<exists>syms g1. generate_losing_roll g = (Inr syms, g1) \<and> length syms = 3 \<and>
     set syms \<subseteq> set SYMBOL_NAMES \<and> \<not> check_winning_combination syms"
  using generate_losing_roll_total [of g] by blast




text \<open>
  Claim C6. On an active session with less than one credit, \<^verbatim>\<open>roll_slots\<close> answers
  \<^verbatim>\<open>Not enough credits\<close> (status 400) and leaves the database (the session, the rolls,
  the saves) and the random source as they are.
\<close>

theorem roll_slots_insufficient_credits:
  assumes "sessions db sid = Some s" and "is_active s" and "credits s < 1"
  shows "roll_slots sid (db, g) = (NotEnoughCredits, db, g)"
  using assms by (rule roll_slots_poor)

theorem roll_slots_insufficient_credits_witness:
  "roll_slots 7 (db_with 7 0, mock_rng (\<lambda>n. 0) 0) = (NotEnoughCredits, db_with 7 0, mock_rng (\<lambda>n. 0) 0)"
  using roll_slots_insufficient_credits [of "db_with 7 0" 7 "new_session 7 0" "mock_rng (\<lambda>n. 0) 0"]
  by (simp add: db_with_lookup new_session_fields)

text \<open>
  Claim C7. After the view \<^verbatim>\<open>cash_out\<close> has closed a session, a second call for the same
  identifier fails, with the very answer that an unknown identifier \<^verbatim>\<open>u\<close> gets (the
  Http404 of \<^verbatim>\<open>get_object_or_404\<close>, caught by the handler), and leaves the database, so
  \<^verbatim>\<open>account_credits\<close> too, as the first call left it. (A first call whose total is
  outside the range of the column closes nothing: it answers with status 500.)
\<close>

theorem cash_out_twice_fails:
  assumes "sessions db (session_id s) = Some s" and "is_active s" and "sessions db u = None"
  shows "(case cash_out_view (session_id s) db of
      (r1, db1) \<Rightarrow>
        (if in_column (account_credits s + credits s) then
           r1 = CashedOut True (account_credits s + credits s) \<and>
           cash_out_view (session_id s) db1 = (JsonError 500 Http404, db1)
         else r1 = JsonError 500 OverflowError \<and> db1 = db) \<and>
        cash_out_view u db1 = (JsonError 500 Http404, db1))"
proof (cases "in_column (account_credits s + credits s)")
  case True
  have "u \<noteq> session_id s" using assms by auto
  then show ?thesis using assms True
    by (simp add: cash_out_view_active cash_out_view_fail store_row_def)
next
  case False
  then show ?thesis using assms
    by (simp add: cash_out_view_overflow cash_out_view_fail)
qed

theorem cash_out_twice_fails_witness:
  "fst (cash_out_view 7 (db_with 7 25)) = CashedOut True 25 \<and>
   cash_out_view 7 (snd (cash_out_view 7 (db_with 7 25))) =
     (JsonError 500 Http404, snd (cash_out_view 7 (db_with 7 25))) \<and>
   cash_out_view 8 (snd (cash_out_view 7 (db_with 7 25))) =
     (JsonError 500 Http404, snd (cash_out_view 7 (db_with 7 25)))"
  using cash_out_twice_fails [of "db_with 7 25" "new_session 7 25" 8]
  by (simp add: db_with_def new_session_def store_row_def empty_db_def in_column_def
      split: prod.splits)

text \<open>
  Claim C8. In every database reached from the empty one by requests, every session has
  \<^verbatim>\<open>credits >= 0\<close> and \<^verbatim>\<open>account_credits >= 0\<close>; and every single request preserves the
  two inequalities, from any database in which they hold.
\<close>

theorem credits_never_negative:
  "credits_nonneg (fst (run ops (empty_db, g0))) \<and>
   (credits_nonneg db \<longrightarrow> credits_nonneg (fst (snd (step op (db, g)))))"
  by (simp add: run_credits_nonneg empty_db_invariants step_credits_nonneg)

theorem credits_never_negative_witness:
  "credits_nonneg (fst (run [CreateSession 7, PlayRoll 7, CashOut 7, PlayRoll 7]
      (empty_db, mock_rng (\<lambda>n. 0) 0))) \<and>
   credits_nonneg (db_with 7 1) \<and>
   credits_nonneg (fst (snd (step (PlayRoll 7) (db_with 7 1, mock_rng (\<lambda>n. n) 0))))"
  using credits_never_negative [of "[CreateSession 7, PlayRoll 7, CashOut 7, PlayRoll 7]"
      "mock_rng (\<lambda>n. 0) 0" "db_with 7 1" "PlayRoll 7" "mock_rng (\<lambda>n. n) 0"]
    credits_nonneg_db_with [of 1 7]
  by simp

text \<open>
  Claim C9. When the initial roll of \<^verbatim>\<open>roll_slots\<close> wins, the outcome is decided by
  \<^verbatim>\<open>should_server_cheat\<close> called on the balance after the deduction
  (\<^verbatim>\<open>credits_before - 1\<close>, the win not yet added) and on the reward of the rolled symbol,
  with the random source as the initial roll left it: if it answers True the roll is
  replaced by a losing one and nothing is paid; if it answers False the win is paid, or,
  when the balance with the win is outside the range of the column, the save raises and
  the view answers with status 500. The session is a row of the table, within the range
  of its columns.
\<close>

theorem fairness_engine_after_deduction:
  assumes "sessions db sid = Some s" and "is_active s" and "1 \<le> credits s"
    and "storable s"
    and "generate_roll g = (Inr syms0, g1)" and "check_winning_combination syms0"
  shows "\<exists>info suppress g2 syms display db1 g3.
     SYMBOLS_get (syms0 ! 0) = Inr info \<and>
     should_server_cheat (credits s - 1) (reward info) g1 = (suppress, g2) \<and>
     roll_slots sid (db, g) =
       (if \<not> suppress \<and> \<not> in_column (credits s - 1 + reward info)
        then JsonError 500 OverflowError
        else RollResult syms display (\<not> suppress) (if suppress then 0 else reward info)
               (if suppress then credits s - 1 else credits s - 1 + reward info) suppress,
        db1, g3) \<and>
     (if suppress then generate_losing_roll g2 = (Inr syms, g3) else syms = syms0 \<and> g3 = g2) \<and>
     symbols_display syms = Inr display"
proof -
  note st = assms(1) and act = assms(2) and cr = assms(3) and sv = assms(4)
    and gr = assms(5) and win = assms(6)
  from generate_roll_total [of g] gr have l0: "length syms0 = 3"
    and sub0: "set syms0 \<subseteq> set SYMBOL_NAMES"
    by auto
  from SYMBOLS_get_name [OF hd_in_names [OF l0 sub0]] obtain info where
    info: "SYMBOLS_get (syms0 ! 0) = Inr info" and rw: "reward info \<in> {10, 20, 30, 40}"
    by blast
  let ?s1 = "s\<lparr>credits := credits s - 1\<rparr>"
  have sv1: "storable ?s1" by (rule storable_deducted [OF sv cr])
  have cols: "in_column (credits s)" "in_column (credits s - 1)" "in_column 0"
    "in_column (reward info)" "in_column (account_credits s)"
    using sv cr rw by (auto simp: storable_def in_column_def)
  obtain suppress g2 where
    c: "should_server_cheat (credits s - 1) (reward info) g1 = (suppress, g2)"
    by (cases "should_server_cheat (credits s - 1) (reward info) g1")
  show ?thesis
  proof (cases suppress)
    case True
    from generate_losing_roll_total [of g2] obtain syms g3 where
      gl: "generate_losing_roll g2 = (Inr syms, g3)" and sub: "set syms \<subseteq> set SYMBOL_NAMES"
      by blast
    have ro: "roll_outcome ?s1 syms0 g1 = (Inr (syms, False, 0, True), g3)"
      using c True gl by (simp add: roll_outcome_winning [OF win info])
    from symbols_display_total [OF sub] obtain display where
      sd: "symbols_display syms = Inr display"
      by blast
    show ?thesis
      using roll_slots_losing_unfold [OF st act cr sv1 gr ro sd] info c True gl sd cols
      by (auto simp: storable_roll_def)
  next
    case False
    have ro: "roll_outcome ?s1 syms0 g1 = (Inr (syms0, True, reward info, False), g2)"
      using c False by (simp add: roll_outcome_winning [OF win info])
    from symbols_display_total [OF sub0] obtain display where
      sd: "symbols_display syms0 = Inr display"
      by blast
    show ?thesis
    proof (cases "in_column (credits s - 1 + reward info)")
      case ic: True
      then have sv2: "storable (s\<lparr>credits := credits s - 1 + reward info\<rparr>)"
        using cols by (simp add: storable_def)
      show ?thesis
        using roll_slots_winning_unfold [OF st act cr sv1 gr ro sv2 sd] info c False sd cols ic
        by (auto simp: storable_roll_def)
    next
      case nc: False
      then have nsv: "\<not> storable (s\<lparr>credits := credits s - 1 + reward info\<rparr>)"
        by (simp add: storable_def)
      show ?thesis
        using roll_slots_winning_overflow [OF st act cr sv1 gr ro nsv] info c False sd nc
        by auto
    qed
  qed
qed

text \<open>
  At the threshold: with 30 credits and three cherries the engine sees 29 + 10 < 40, takes
  no draw and the win is paid; with 31 credits it sees 40, takes one draw (here 0) and
  suppresses the win. At the top of the column: with 2^63 - 1 credits the engine takes one
  draw (here 0.9), does not suppress, and the save of the win raises: the deduction is
  kept and no roll is recorded.
\<close>

theorem fairness_engine_after_deduction_witness:
  "fst (roll_slots 7 (db_with 7 30, mock_rng (\<lambda>n. 0) 0)) =
     RollResult [''cherry'', ''cherry'', ''cherry''] [''C'', ''C'', ''C''] True 10 39 False \<and>
   snd (snd (roll_slots 7 (db_with 7 30, mock_rng (\<lambda>n. 0) 0))) =
     (mock_rng (\<lambda>n. 0) 0)\<lparr>choice_used := 3\<rparr> \<and>
   fst (roll_slots 7 (db_with 7 31, mock_rng (\<lambda>n. 0) 0)) =
     RollResult [''cherry'', ''cherry'', ''lemon''] [''C'', ''C'', ''L''] False 0 30 True \<and>
   snd (snd (roll_slots 7 (db_with 7 31, mock_rng (\<lambda>n. 0) 0))) =
     (mock_rng (\<lambda>n. 0) 0)\<lparr>choice_used := 7, random_used := 1\<rparr> \<and>
   roll_slots 7 (db_with 7 (2 ^ 63 - 1), mock_rng (\<lambda>n. 0) 0.9) =
     (JsonError 500 OverflowError,
      \<lparr>sessions = [7 \<mapsto> \<lparr>session_id = 7, credits = 2 ^ 63 - 2, account_credits = 0,
                           is_active = True\<rparr>],
        rolls = [],
        saves = [\<lparr>session_id = 7, credits = 2 ^ 63 - 1, account_credits = 0, is_active = True\<rparr>,
                 \<lparr>session_id = 7, credits = 2 ^ 63 - 2, account_credits = 0, is_active = True\<rparr>]\<rparr>,
      (mock_rng (\<lambda>n. 0) 0.9)\<lparr>choice_used := 3, random_used := 1\<rparr>)"
proof -
  have a: "is_active (new_session 7 30)" "1 \<le> credits (new_session 7 30)"
    "storable (new_session 7 30)"
    and b: "is_active (new_session 7 31)" "1 \<le> credits (new_session 7 31)"
    "storable (new_session 7 31)"
    and c: "is_active (new_session 7 (2 ^ 63 - 1))" "1 \<le> credits (new_session 7 (2 ^ 63 - 1))"
    "storable (new_session 7 (2 ^ 63 - 1))"
    by (simp_all add: new_session_def storable_def in_column_def)
  from fairness_engine_after_deduction [OF db_with_lookup a mock_generate_roll [of 0] cherry_wins]
  have 1: "fst (roll_slots 7 (db_with 7 30, mock_rng (\<lambda>n. 0) 0)) =
       RollResult [''cherry'', ''cherry'', ''cherry''] [''C'', ''C'', ''C''] True 10 39 False \<and>
     snd (snd (roll_slots 7 (db_with 7 30, mock_rng (\<lambda>n. 0) 0))) =
       (mock_rng (\<lambda>n. 0) 0)\<lparr>choice_used := 3\<rparr>"
    by (auto simp: cherry_info new_session_fields cheat_29_10 in_column_def)
  from fairness_engine_after_deduction [OF db_with_lookup b mock_generate_roll [of 0] cherry_wins]
  have 2: "fst (roll_slots 7 (db_with 7 31, mock_rng (\<lambda>n. 0) 0)) =
       RollResult [''cherry'', ''cherry'', ''lemon''] [''C'', ''C'', ''L''] False 0 30 True \<and>
     snd (snd (roll_slots 7 (db_with 7 31, mock_rng (\<lambda>n. 0) 0))) =
       (mock_rng (\<lambda>n. 0) 0)\<lparr>choice_used := 7, random_used := 1\<rparr>"
    by (auto simp: cherry_info lemon_info new_session_fields cheat_30_10 mock_generate_losing_roll
        in_column_def)
  from fairness_engine_after_deduction [OF db_with_lookup c mock_generate_roll [of "0.9"] cherry_wins]
  have 3: "fst (roll_slots 7 (db_with 7 (2 ^ 63 - 1), mock_rng (\<lambda>n. 0) 0.9)) =
       JsonError 500 OverflowError \<and>
     snd (snd (roll_slots 7 (db_with 7 (2 ^ 63 - 1), mock_rng (\<lambda>n. 0) 0.9))) =
       (mock_rng (\<lambda>n. 0) 0.9)\<lparr>choice_used := 3, random_used := 1\<rparr>"
    by (auto simp: cherry_info new_session_fields cheat_top in_column_def)
  have sv1: "storable ((new_session 7 (2 ^ 63 - 1))\<lparr>credits := credits (new_session 7 (2 ^ 63 - 1)) - 1\<rparr>)"
    and nsv: "\<not> storable ((new_session 7 (2 ^ 63 - 1))\<lparr>credits := credits (new_session 7 (2 ^ 63 - 1)) - 1 + 10\<rparr>)"
    by (simp_all add: new_session_def storable_def in_column_def)
  have ro: "roll_outcome ((new_session 7 (2 ^ 63 - 1))\<lparr>credits := credits (new_session 7 (2 ^ 63 - 1)) - 1\<rparr>)
        [''cherry'', ''cherry'', ''cherry''] ((mock_rng (\<lambda>n. 0) 0.9)\<lparr>choice_used := 3\<rparr>) =
      (Inr ([''cherry'', ''cherry'', ''cherry''], True, 10, False),
       (mock_rng (\<lambda>n. 0) 0.9)\<lparr>choice_used := 3, random_used := 1\<rparr>)"
    using roll_outcome_winning [OF cherry_wins, of "\<lparr>letter = ''C'', reward = 10\<rparr>"]
    by (simp add: cherry_info cheat_top new_session_def)
  have 4: "fst (snd (roll_slots 7 (db_with 7 (2 ^ 63 - 1), mock_rng (\<lambda>n. 0) 0.9))) =
      \<lparr>sessions = [7 \<mapsto> \<lparr>session_id = 7, credits = 2 ^ 63 - 2, account_credits = 0,
                           is_active = True\<rparr>],
        rolls = [],
        saves = [\<lparr>session_id = 7, credits = 2 ^ 63 - 1, account_credits = 0, is_active = True\<rparr>,
                 \<lparr>session_id = 7, credits = 2 ^ 63 - 2, account_credits = 0, is_active = True\<rparr>]\<rparr>"
    using roll_slots_winning_overflow [OF db_with_lookup c(1,2) sv1 mock_generate_roll [of "0.9"] ro nsv]
    by (simp add: store_row_def db_with_def new_session_def empty_db_def)
  have 5: "roll_slots 7 (db_with 7 (2 ^ 63 - 1), mock_rng (\<lambda>n. 0) 0.9) =
     (JsonError 500 OverflowError,
      \<lparr>sessions = [7 \<mapsto> \<lparr>session_id = 7, credits = 2 ^ 63 - 2, account_credits = 0,
                           is_active = True\<rparr>],
        rolls = [],
        saves = [\<lparr>session_id = 7, credits = 2 ^ 63 - 1, account_credits = 0, is_active = True\<rparr>,
                 \<lparr>session_id = 7, credits = 2 ^ 63 - 2, account_credits = 0, is_active = True\<rparr>]\<rparr>,
      (mock_rng (\<lambda>n. 0) 0.9)\<lparr>choice_used := 3, random_used := 1\<rparr>)"
    using 3 4 by (simp add: prod_eq_iff)
  from 1 2 5 show ?thesis by (simp only: simp_thms)
qed

text \<open>
  Claim C10. The method \<^verbatim>\<open>GameSession.cash_out\<close> is idempotent: called a second time, on
  any session, it leaves \<^verbatim>\<open>credits\<close> and \<^verbatim>\<open>account_credits\<close> (the whole object, and the
  session table) as the first call left them and returns the same total.
\<close>

theorem cash_out_idempotent:
  "(case cash_out s db of
      (total1, s1, db1) \<Rightarrow>
        (case cash_out s1 db1 of
           (total2, s2, db2) \<Rightarrow>
             credits s2 = credits s1 \<and> account_credits s2 = account_credits s1 \<and>
             total2 = total1 \<and> s2 = s1 \<and> sessions db2 = sessions db1))"
  by (simp add: cash_out_def save_def store_row_def storable_def Let_def)

end
